theory Spec2Isabelle
  imports Complex_Main
begin

section \<open>Scene components, targets and notifications\<close>

text \<open>
  Engine objects are identified by their address. A weak handle
  (\<^verbatim>\<open>TWeakObjectPtr\<close>) is such an identity; whether it still resolves is
  decided by the engine's object table, taken as a predicate \<open>alive\<close>.
\<close>

type_synonym obj_id = nat

text \<open>
  A \<^verbatim>\<open>USceneComponent*\<close> that is not null: the object's identity, the two facts
  \<^verbatim>\<open>ImplementsTargetInterface\<close> reads from its class, and its attach parent
  (\<open>None\<close> is the null pointer). The attachment chain of a component is finite.
\<close>

datatype scene_comp =
  SceneComp (comp_id: obj_id) (ClassImplementsInterface: bool) (CastsToTarget: bool)
    (GetAttachParent: "scene_comp option")

text \<open>The four \<^verbatim>\<open>ITouchPointerTarget::Execute_...\<close> calls, with the target they go to.\<close>

datatype target_call =
  TouchStarted obj_id
| TouchEnded obj_id
| PinchStarted obj_id
| PinchEnded obj_id

text \<open>The members of \<^verbatim>\<open>UTouchPointer\<close> that \<^verbatim>\<open>TouchPointer.cpp\<close> reads and writes.\<close>

record touch_pointer =
  TouchRadius :: real
  bIsPinched :: bool
  TouchedTargets :: "obj_id list"

text \<open>
  A notification runs the target's implementation, which is handed the pointer
  (\<^verbatim>\<open>this\<close>) as it is at the moment of the call and acts on the world outside the
  pointer.
\<close>

type_synonym 'w handler = "target_call \<Rightarrow> touch_pointer \<Rightarrow> 'w \<Rightarrow> 'w"

text \<open>The handler that records the calls in the order they are made.\<close>

definition record_call :: "(target_call list) handler" where
  "record_call c this w = w @ [c]"

text \<open>
  The handler that also asks the pointer, from inside the call, which targets
  it holds in its touched set.
\<close>

definition query_call :: "((target_call \<times> obj_id list) list) handler" where
  "query_call c this w = w @ [(c, TouchedTargets this)]"

subsection \<open>Containers\<close>

text \<open>
  Modelled from the spec: \<^verbatim>\<open>TouchPointer.h\<close>, which declares
  \<^verbatim>\<open>TouchedTargets\<close>, is not among the sources; the spec describes it as a set of
  weak references keyed by target identity. The set is a list without
  repetition, iterated in the order kept here. \<open>Add\<close> of a member leaves the
  set as it is; \<open>Remove\<close> returns the number of elements removed.
\<close>

definition TSet_Add :: "obj_id list \<Rightarrow> obj_id \<Rightarrow> obj_id list" where
  "TSet_Add s x = (if x \<in> set s then s else s @ [x])"

text \<open>
  Modelled from the spec: the same set, for the same reason; \<open>Remove\<close> takes the
  element out by identity and returns how many elements it removed.
\<close>

definition TSet_Remove :: "obj_id list \<Rightarrow> obj_id \<Rightarrow> nat \<times> obj_id list" where
  "TSet_Remove s x = (count_list s x, removeAll x s)"

text \<open>
  \<^verbatim>\<open>TArray<UTouchPointer*> UTouchPointer::Pointers\<close>: \<open>Add\<close> appends,
  \<open>Remove\<close> removes every occurrence.
\<close>

definition TArray_Add :: "obj_id list \<Rightarrow> obj_id \<Rightarrow> obj_id list" where
  "TArray_Add a x = a @ [x]"

definition TArray_Remove :: "obj_id list \<Rightarrow> obj_id \<Rightarrow> obj_id list" where
  "TArray_Remove a x = removeAll x a"

section \<open>The touch pointer\<close>

definition ImplementsTargetInterface :: "scene_comp \<Rightarrow> bool" where
  "ImplementsTargetInterface obj = (ClassImplementsInterface obj \<or> CastsToTarget obj)"

fun TryStartTouching ::
  "'w handler \<Rightarrow> touch_pointer \<Rightarrow> scene_comp option \<Rightarrow> 'w \<Rightarrow> bool \<times> touch_pointer \<times> 'w" where
  "TryStartTouching Execute this None w = (False, this, w)"
| "TryStartTouching Execute this (Some (SceneComp i ci ct parent)) w =
     (if ImplementsTargetInterface (SceneComp i ci ct parent) then
        let w1 = Execute (TouchStarted i) this w;
            this1 = this\<lparr>TouchedTargets := TSet_Add (TouchedTargets this) i\<rparr>;
            w2 = (if bIsPinched this1 then Execute (PinchStarted i) this1 w1 else w1)
        in (True, this1, w2)
      else TryStartTouching Execute this parent w)"

fun TryStopTouching ::
  "'w handler \<Rightarrow> touch_pointer \<Rightarrow> scene_comp option \<Rightarrow> 'w \<Rightarrow> bool \<times> touch_pointer \<times> 'w" where
  "TryStopTouching Execute this None w = (False, this, w)"
| "TryStopTouching Execute this (Some (SceneComp i ci ct parent)) w =
     (let (n, s) = TSet_Remove (TouchedTargets this) i;
          this1 = this\<lparr>TouchedTargets := s\<rparr>
      in if n > 0 then
           (if ImplementsTargetInterface (SceneComp i ci ct parent) then
              let w1 = (if bIsPinched this1 then Execute (PinchEnded i) this1 w else w);
                  w2 = Execute (TouchEnded i) this1 w1
              in (True, this1, w2)
            else (True, this1, w))
         else TryStopTouching Execute this1 parent w)"

definition OnPointerBeginOverlap ::
  "'w handler \<Rightarrow> touch_pointer \<Rightarrow> scene_comp option \<Rightarrow> 'w \<Rightarrow> touch_pointer \<times> 'w" where
  "OnPointerBeginOverlap Execute this OtherComp w = snd (TryStartTouching Execute this OtherComp w)"

definition OnPointerEndOverlap ::
  "'w handler \<Rightarrow> touch_pointer \<Rightarrow> scene_comp option \<Rightarrow> 'w \<Rightarrow> touch_pointer \<times> 'w" where
  "OnPointerEndOverlap Execute this OtherComp w = snd (TryStopTouching Execute this OtherComp w)"

text \<open>One turn of the loop of \<^verbatim>\<open>StopAllTouching\<close> over the touched set.\<close>

definition StopTouching_body ::
  "'w handler \<Rightarrow> (obj_id \<Rightarrow> bool) \<Rightarrow> touch_pointer \<Rightarrow> obj_id \<Rightarrow> 'w \<Rightarrow> 'w" where
  "StopTouching_body Execute alive this wComp w =
     (if alive wComp then
        let w1 = (if bIsPinched this then Execute (PinchEnded wComp) this w else w)
        in Execute (TouchEnded wComp) this w1
      else w)"

definition StopAllTouching ::
  "'w handler \<Rightarrow> (obj_id \<Rightarrow> bool) \<Rightarrow> touch_pointer \<Rightarrow> 'w \<Rightarrow> touch_pointer \<times> 'w" where
  "StopAllTouching Execute alive this w =
     (let w1 = fold (StopTouching_body Execute alive this) (TouchedTargets this) w
      in (this\<lparr>TouchedTargets := []\<rparr>, w1))"

text \<open>
  One turn of the loop of \<^verbatim>\<open>SetPinched\<close>. The block after the \<^verbatim>\<open>if (Enable)\<close>
  is not an \<^verbatim>\<open>else\<close> branch in the source: it runs in both cases.
\<close>

definition SetPinched_body ::
  "'w handler \<Rightarrow> (obj_id \<Rightarrow> bool) \<Rightarrow> touch_pointer \<Rightarrow> bool \<Rightarrow> obj_id \<Rightarrow> 'w \<Rightarrow> 'w" where
  "SetPinched_body Execute alive this Enable wComp w =
     (if alive wComp then
        let w1 = (if Enable then Execute (PinchStarted wComp) this w else w)
        in Execute (PinchEnded wComp) this w1
      else w)"

definition SetPinched ::
  "'w handler \<Rightarrow> (obj_id \<Rightarrow> bool) \<Rightarrow> touch_pointer \<Rightarrow> bool \<Rightarrow> 'w \<Rightarrow> touch_pointer \<times> 'w" where
  "SetPinched Execute alive this Enable w =
     (if bIsPinched this \<noteq> Enable then
        let w1 = fold (SetPinched_body Execute alive this Enable) (TouchedTargets this) w
        in (this\<lparr>bIsPinched := Enable\<rparr>, w1)
      else (this, w))"

definition GetPinched :: "touch_pointer \<Rightarrow> bool" where
  "GetPinched this = bIsPinched this"

definition SetTouchRadius :: "touch_pointer \<Rightarrow> real \<Rightarrow> touch_pointer" where
  "SetTouchRadius this radius = this\<lparr>TouchRadius := radius\<rparr>"

text \<open>
  \<^verbatim>\<open>BeginPlay\<close> and \<^verbatim>\<open>EndPlay\<close> act on the static array \<^verbatim>\<open>Pointers\<close> as well;
  \<open>addr\<close> is the address of \<^verbatim>\<open>this\<close>. Binding and unbinding the overlap
  delegates of the touch sphere is the engine's business and has no part here.
\<close>

definition BeginPlay :: "obj_id \<Rightarrow> obj_id list \<Rightarrow> obj_id list" where
  "BeginPlay addr Pointers = TArray_Add Pointers addr"

definition EndPlay ::
  "'w handler \<Rightarrow> (obj_id \<Rightarrow> bool) \<Rightarrow> obj_id \<Rightarrow> touch_pointer \<Rightarrow> obj_id list \<Rightarrow> 'w
     \<Rightarrow> touch_pointer \<times> obj_id list \<times> 'w" where
  "EndPlay Execute alive addr this Pointers w =
     (let (this1, w1) = StopAllTouching Execute alive this w
      in (this1, TArray_Remove Pointers addr, w1))"

definition GetAllPointers :: "obj_id list \<Rightarrow> obj_id list" where
  "GetAllPointers Pointers = Pointers"

section \<open>The pointers of the process\<close>

text \<open>
  The static array \<^verbatim>\<open>Pointers\<close>, the pointer objects by address, and the world
  outside the pointers that the targets' implementations act on.
\<close>

record 'w world =
  Pointers :: "obj_id list"
  pointer_at :: "obj_id \<Rightarrow> touch_pointer"
  outside :: 'w

text \<open>The entry points of \<^verbatim>\<open>TouchPointer.cpp\<close>, each on the pointer at an address.\<close>

datatype pointer_op =
  DoBeginPlay obj_id
| DoEndPlay obj_id
| DoBeginOverlap obj_id "scene_comp option"
| DoEndOverlap obj_id "scene_comp option"
| DoSetPinched obj_id bool
| DoGetPinched obj_id
| DoSetTouchRadius obj_id real
| DoGetAllPointers

fun apply_op :: "'w handler \<Rightarrow> (obj_id \<Rightarrow> bool) \<Rightarrow> pointer_op \<Rightarrow> 'w world \<Rightarrow> 'w world" where
  "apply_op Execute alive (DoBeginPlay p) wd =
     wd\<lparr>Pointers := BeginPlay p (Pointers wd)\<rparr>"
| "apply_op Execute alive (DoEndPlay p) wd =
     (let (this1, reg, w1) = EndPlay Execute alive p (pointer_at wd p) (Pointers wd) (outside wd)
      in wd\<lparr>Pointers := reg, pointer_at := (pointer_at wd)(p := this1), outside := w1\<rparr>)"
| "apply_op Execute alive (DoBeginOverlap p node) wd =
     (let (this1, w1) = OnPointerBeginOverlap Execute (pointer_at wd p) node (outside wd)
      in wd\<lparr>pointer_at := (pointer_at wd)(p := this1), outside := w1\<rparr>)"
| "apply_op Execute alive (DoEndOverlap p node) wd =
     (let (this1, w1) = OnPointerEndOverlap Execute (pointer_at wd p) node (outside wd)
      in wd\<lparr>pointer_at := (pointer_at wd)(p := this1), outside := w1\<rparr>)"
| "apply_op Execute alive (DoSetPinched p Enable) wd =
     (let (this1, w1) = SetPinched Execute alive (pointer_at wd p) Enable (outside wd)
      in wd\<lparr>pointer_at := (pointer_at wd)(p := this1), outside := w1\<rparr>)"
| "apply_op Execute alive (DoGetPinched p) wd = wd"
| "apply_op Execute alive (DoSetTouchRadius p radius) wd =
     wd\<lparr>pointer_at := (pointer_at wd)(p := SetTouchRadius (pointer_at wd p) radius)\<rparr>"
| "apply_op Execute alive DoGetAllPointers wd = wd"

section \<open>The follow component\<close>

datatype EFollowOrientBehavior = FaceCamera | WorldLock

text \<open>The parameters that \<^verbatim>\<open>FollowComponent.h\<close> declares; a \<^verbatim>\<open>float\<close> is read as a real.\<close>

record UFollowComponent =
  OrientationType :: EFollowOrientBehavior
  MoveToDefaultDistanceLerpTime :: real
  MinimumDistance :: real
  MaximumDistance :: real
  DefaultDistance :: real
  MaxViewHorizontalDegrees :: real
  MaxViewVerticalDegrees :: real
  OrientToCameraDeadzoneDegrees :: real
  bIgnoreAngleClamp :: bool
  bIgnoreDistanceClamp :: bool
  bIgnoreCameraPitchAndRoll :: bool
  PitchOffset :: real
  VerticalMaxDistance :: real

text \<open>The values the header initialises the parameters with.\<close>

definition follow_defaults :: UFollowComponent where
  "follow_defaults =
     \<lparr>OrientationType = WorldLock, MoveToDefaultDistanceLerpTime = 10,
      MinimumDistance = 50, MaximumDistance = 100, DefaultDistance = 75,
      MaxViewHorizontalDegrees = 30, MaxViewVerticalDegrees = 30,
      OrientToCameraDeadzoneDegrees = 60, bIgnoreAngleClamp = False,
      bIgnoreDistanceClamp = False, bIgnoreCameraPitchAndRoll = False,
      PitchOffset = 0, VerticalMaxDistance = 0\<rparr>"

text \<open>
  Modelled from the spec: \<^verbatim>\<open>FollowComponent.cpp\<close> is not among the sources, so
  the helper that picks the bound to clamp to is missing. The spec's words are
  "clamp to the nearest bound"; when both bounds are equally near, the minimum
  is taken.
\<close>

definition nearest_bound :: "real \<Rightarrow> real \<Rightarrow> real \<Rightarrow> real" where
  "nearest_bound lo hi d = (if \<bar>d - lo\<bar> \<le> \<bar>d - hi\<bar> then lo else hi)"

text \<open>
  Modelled from the spec: \<^verbatim>\<open>FollowComponent.cpp\<close>, whose
  \<^verbatim>\<open>UpdateTransformToGoal\<close> holds the distance clamp, is not among the sources.
  The spec's step, on the measured distance \<open>d\<close> from the camera to the goal
  position: if it is below \<^verbatim>\<open>MinimumDistance\<close> or above \<^verbatim>\<open>MaximumDistance\<close>, clamp
  it to the nearest bound; otherwise leave it unchanged. The step is skipped
  when \<^verbatim>\<open>bIgnoreDistanceClamp\<close> is set.
\<close>

definition DistanceClamp :: "UFollowComponent \<Rightarrow> real \<Rightarrow> real" where
  "DistanceClamp cfg d =
     (if bIgnoreDistanceClamp cfg then d
      else if d < MinimumDistance cfg \<or> MaximumDistance cfg < d then
        nearest_bound (MinimumDistance cfg) (MaximumDistance cfg) d
      else d)"

section \<open>Notions used to state the properties\<close>

text \<open>
  The walk of \<^verbatim>\<open>TryStartTouching\<close> and \<^verbatim>\<open>TryStopTouching\<close>: the component itself,
  then its attach parent, and so on until the chain ends.
\<close>

fun attach_chain :: "scene_comp option \<Rightarrow> scene_comp list" where
  "attach_chain None = []"
| "attach_chain (Some (SceneComp i ci ct parent)) = SceneComp i ci ct parent # attach_chain parent"

fun call_target :: "target_call \<Rightarrow> obj_id" where
  "call_target (TouchStarted t) = t"
| "call_target (TouchEnded t) = t"
| "call_target (PinchStarted t) = t"
| "call_target (PinchEnded t) = t"

fun is_TouchStarted :: "target_call \<Rightarrow> bool" where
  "is_TouchStarted (TouchStarted t) = True"
| "is_TouchStarted c = False"

fun is_TouchEnded :: "target_call \<Rightarrow> bool" where
  "is_TouchEnded (TouchEnded t) = True"
| "is_TouchEnded c = False"

subsection \<open>Overlap events on one node, and the pointers that are active\<close>

datatype overlap_event = BeginOverlap | EndOverlap

fun deliver_overlaps ::
  "'w handler \<Rightarrow> scene_comp option \<Rightarrow> overlap_event list \<Rightarrow> touch_pointer \<times> 'w
     \<Rightarrow> touch_pointer \<times> 'w" where
  "deliver_overlaps Execute node [] s = s"
| "deliver_overlaps Execute node (BeginOverlap # es) s =
     deliver_overlaps Execute node es (OnPointerBeginOverlap Execute (fst s) node (snd s))"
| "deliver_overlaps Execute node (EndOverlap # es) s =
     deliver_overlaps Execute node es (OnPointerEndOverlap Execute (fst s) node (snd s))"

text \<open>Each begin directly followed by its end, \<open>k\<close> times.\<close>

fun begin_end_pairs :: "nat \<Rightarrow> overlap_event list" where
  "begin_end_pairs 0 = []"
| "begin_end_pairs (Suc k) = BeginOverlap # EndOverlap # begin_end_pairs k"

text \<open>
  The spec's words for the registry: a pointer is in it from its activation to
  its deactivation. \<open>active_after ops A\<close> is the set of such pointers after the
  operations \<open>ops\<close>, when \<open>A\<close> were active before.
\<close>

fun active_after :: "pointer_op list \<Rightarrow> obj_id set \<Rightarrow> obj_id set" where
  "active_after [] A = A"
| "active_after (DoBeginPlay p # ops) A = active_after ops (insert p A)"
| "active_after (DoEndPlay p # ops) A = active_after ops (A - {p})"
| "active_after (other # ops) A = active_after ops A"

subsection \<open>A small scene\<close>

text \<open>
  A button that implements the target interface, with two collision
  primitives attached to it that do not, and a panel that is no target and
  has no parent.
\<close>

definition button :: scene_comp where
  "button = SceneComp 7 True False None"

definition left_collider :: scene_comp where
  "left_collider = SceneComp 8 False False (Some button)"

definition right_collider :: scene_comp where
  "right_collider = SceneComp 9 False False (Some button)"

definition panel :: scene_comp where
  "panel = SceneComp 5 False False None"

definition idle_pointer :: touch_pointer where
  "idle_pointer = \<lparr>TouchRadius = 1, bIsPinched = False, TouchedTargets = []\<rparr>"

definition everything_alive :: "obj_id \<Rightarrow> bool" where
  "everything_alive t = True"

section \<open>Facts about the containers and the walks\<close>

lemma count_list_pos_iff: "0 < count_list xs x \<longleftrightarrow> x \<in> set xs"
  using count_list_0_iff [of xs x] by auto

lemma TryStartTouching_walk:
  "TryStartTouching Execute this node w =
    (case find ImplementsTargetInterface (attach_chain node) of
       None \<Rightarrow> (False, this, w)
     | Some t \<Rightarrow>
         (let this1 = this\<lparr>TouchedTargets := TSet_Add (TouchedTargets this) (comp_id t)\<rparr>;
              w1 = Execute (TouchStarted (comp_id t)) this w
          in (True, this1,
              if bIsPinched this then Execute (PinchStarted (comp_id t)) this1 w1 else w1)))"
  by (induction Execute this node w rule: TryStartTouching.induct) (simp_all add: Let_def)

lemma TryStopTouching_none_touched:
  assumes "\<forall>c \<in> set (attach_chain node). comp_id c \<notin> set (TouchedTargets this)"
  shows "TryStopTouching Execute this node w = (False, this, w)"
  using assms
  by (induction Execute this node w rule: TryStopTouching.induct)
     (simp_all add: TSet_Remove_def)

lemma TryStopTouching_walk:
  assumes "find (\<lambda>c. comp_id c \<in> set (TouchedTargets this)) (attach_chain node) = Some t"
  shows "TryStopTouching Execute this node w =
     (let this1 = this\<lparr>TouchedTargets := removeAll (comp_id t) (TouchedTargets this)\<rparr>
      in (True, this1,
          if ImplementsTargetInterface t then
            Execute (TouchEnded (comp_id t)) this1
              (if bIsPinched this then Execute (PinchEnded (comp_id t)) this1 w else w)
          else w))"
  using assms
proof (induction Execute this node w rule: TryStopTouching.induct)
  case (1 Execute this w)
  then show ?case by simp
next
  case (2 Execute this i ci ct parent w)
  show ?case
  proof (cases "i \<in> set (TouchedTargets this)")
    case True
    with 2 show ?thesis by (auto simp add: TSet_Remove_def Let_def count_list_pos_iff)
  next
    case False
    with 2 show ?thesis by (simp add: TSet_Remove_def count_list_pos_iff)
  qed
qed

lemma fold_StopTouching_body:
  "fold (StopTouching_body record_call alive this) ts w =
     w @ concat (map (\<lambda>t. if alive t
                            then (if bIsPinched this then [PinchEnded t] else []) @ [TouchEnded t]
                            else []) ts)"
  by (induction ts arbitrary: w) (simp_all add: StopTouching_body_def record_call_def)

lemma fold_SetPinched_body:
  "fold (SetPinched_body record_call alive this Enable) ts w =
     w @ concat (map (\<lambda>t. if alive t
                            then (if Enable then [PinchStarted t] else []) @ [PinchEnded t]
                            else []) ts)"
  by (induction ts arbitrary: w) (simp_all add: SetPinched_body_def record_call_def)

lemma filter_calls_of_target:
  assumes "distinct ts" and "t \<in> set ts" and "alive t"
  shows "filter (\<lambda>c. call_target c = t)
           (concat (map (\<lambda>t. if alive t
                             then (if p then [PinchEnded t] else []) @ [TouchEnded t]
                             else []) ts))
         = (if p then [PinchEnded t] else []) @ [TouchEnded t]"
  using assms
proof (induction ts)
  case Nil
  then show ?case by simp
next
  case (Cons a ts)
  have other: "filter (\<lambda>c. call_target c = t)
           (concat (map (\<lambda>t. if alive t
                             then (if p then [PinchEnded t] else []) @ [TouchEnded t]
                             else []) us)) = []" if "t \<notin> set us" for us
    using that by (induction us) auto
  show ?case
  proof (cases "a = t")
    case True
    with Cons.prems have "t \<notin> set ts" by simp
    with True Cons.prems show ?thesis by (simp add: other)
  next
    case False
    with Cons show ?thesis by auto
  qed
qed

section \<open>The touch pointer: overlap events\<close>

text \<open>
  C7. \<^verbatim>\<open>TryStartTouching\<close> walks from the node up its attachment chain; the
  target it notifies and adds is the first node of the chain (the node itself
  included) that implements the target interface. When no node of the chain
  does, it returns false, makes no call and leaves the pointer as it was.
\<close>

theorem TryStartTouching_nearest_target:
  "TryStartTouching Execute this node w =
    (case find ImplementsTargetInterface (attach_chain node) of
       None \<Rightarrow> (False, this, w)
     | Some t \<Rightarrow>
         (True, this\<lparr>TouchedTargets := TSet_Add (TouchedTargets this) (comp_id t)\<rparr>,
          if bIsPinched this then
            Execute (PinchStarted (comp_id t))
              (this\<lparr>TouchedTargets := TSet_Add (TouchedTargets this) (comp_id t)\<rparr>)
              (Execute (TouchStarted (comp_id t)) this w)
          else Execute (TouchStarted (comp_id t)) this w))"
  by (simp add: TryStartTouching_walk Let_def split: option.split)

text \<open>
  C4. \<^verbatim>\<open>TryStopTouching\<close> on a node such that neither it nor any node of its
  attachment chain is in the touched set returns false, makes no call to any
  target, whatever the targets' implementations are, and leaves the pointer as
  it was.
\<close>

theorem TryStopTouching_unmatched_noop:
  assumes "set (map comp_id (attach_chain node)) \<inter> set (TouchedTargets this) = {}"
  shows "TryStopTouching Execute this node w = (False, this, w)"
  using assms by (intro TryStopTouching_none_touched) auto

theorem TryStopTouching_unmatched_noop_witness:
  "set (map comp_id (attach_chain (Some left_collider)))
     \<inter> set (TouchedTargets (idle_pointer\<lparr>TouchedTargets := [3]\<rparr>)) = {}
   \<and> TryStopTouching record_call (idle_pointer\<lparr>TouchedTargets := [3]\<rparr>) (Some left_collider) []
       = (False, idle_pointer\<lparr>TouchedTargets := [3]\<rparr>, [])"
proof -
  have h: "set (map comp_id (attach_chain (Some left_collider)))
     \<inter> set (TouchedTargets (idle_pointer\<lparr>TouchedTargets := [3]\<rparr>)) = {}"
    by (simp add: left_collider_def button_def idle_pointer_def)
  from h TryStopTouching_unmatched_noop [OF h, of record_call "[]"] show ?thesis by simp
qed

text \<open>
  C2, as the code has it. \<^verbatim>\<open>TryStartTouching\<close> does not look the target up before
  notifying it: on a node whose nearest target is already in the touched set
  the set stays as it is, but the target is sent touch-start again, followed by
  pinch-start when the pointer is pinched.
\<close>

theorem TryStartTouching_again:
  assumes "find ImplementsTargetInterface (attach_chain node) = Some t"
    and "comp_id t \<in> set (TouchedTargets this)"
  shows "TryStartTouching record_call this node w =
    (True, this,
     w @ TouchStarted (comp_id t) # (if bIsPinched this then [PinchStarted (comp_id t)] else []))"
  using assms by (simp add: TryStartTouching_walk TSet_Add_def record_call_def)

theorem TryStartTouching_again_witness:
  "find ImplementsTargetInterface (attach_chain (Some left_collider)) = Some button
   \<and> comp_id button \<in> set (TouchedTargets (idle_pointer\<lparr>TouchedTargets := [7]\<rparr>))
   \<and> TryStartTouching record_call (idle_pointer\<lparr>TouchedTargets := [7]\<rparr>) (Some left_collider)
        [TouchStarted 7]
      = (True, idle_pointer\<lparr>TouchedTargets := [7]\<rparr>, [TouchStarted 7, TouchStarted 7])"
proof -
  have f: "find ImplementsTargetInterface (attach_chain (Some left_collider)) = Some button"
    by (simp add: left_collider_def button_def ImplementsTargetInterface_def)
  have m: "comp_id button \<in> set (TouchedTargets (idle_pointer\<lparr>TouchedTargets := [7]\<rparr>))"
    by (simp add: button_def)
  from f m TryStartTouching_again [OF f m, of "[TouchStarted 7]"] show ?thesis
    by (simp add: button_def idle_pointer_def)
qed

text \<open>
  C2 as stated fails: the button is touched through its left collider, then
  its right collider begins to overlap as well. The button is already in the
  touched set, and it is sent a second touch-start.
\<close>

theorem TryStartTouching_again_counterexample:
  "TryStartTouching record_call idle_pointer (Some left_collider) []
     = (True, idle_pointer\<lparr>TouchedTargets := [7]\<rparr>, [TouchStarted 7])
   \<and> find ImplementsTargetInterface (attach_chain (Some right_collider)) = Some button
   \<and> comp_id button \<in> set (TouchedTargets (idle_pointer\<lparr>TouchedTargets := [7]\<rparr>))
   \<and> TryStartTouching record_call (idle_pointer\<lparr>TouchedTargets := [7]\<rparr>) (Some right_collider)
        [TouchStarted 7]
     = (True, idle_pointer\<lparr>TouchedTargets := [7]\<rparr>, [TouchStarted 7, TouchStarted 7])"
  by (simp add: left_collider_def right_collider_def button_def idle_pointer_def
      ImplementsTargetInterface_def TSet_Add_def record_call_def)

text \<open>
  C10, as the code has it. When \<^verbatim>\<open>TryStartTouching\<close> finds a target, touch-start is
  called before the target is added: the implementation that asks the pointer
  for its touched set from inside touch-start sees the set as it was before the
  call, so it finds the target there only if an earlier overlap had put it
  there. Pinch-start, when it follows, sees the set with the target added.
\<close>

theorem TouchStarted_sees_earlier_set:
  assumes "find ImplementsTargetInterface (attach_chain node) = Some t"
  shows "TryStartTouching query_call this node w =
     (True, this\<lparr>TouchedTargets := TSet_Add (TouchedTargets this) (comp_id t)\<rparr>,
      w @ (TouchStarted (comp_id t), TouchedTargets this)
        # (if bIsPinched this
           then [(PinchStarted (comp_id t), TSet_Add (TouchedTargets this) (comp_id t))]
           else []))"
  using assms by (simp add: TryStartTouching_walk query_call_def)

theorem TouchStarted_sees_earlier_set_witness:
  "find ImplementsTargetInterface (attach_chain (Some left_collider)) = Some button
   \<and> TryStartTouching query_call (idle_pointer\<lparr>bIsPinched := True\<rparr>) (Some left_collider) []
     = (True, idle_pointer\<lparr>bIsPinched := True, TouchedTargets := [7]\<rparr>,
        [(TouchStarted 7, []), (PinchStarted 7, [7])])"
proof -
  have f: "find ImplementsTargetInterface (attach_chain (Some left_collider)) = Some button"
    by (simp add: left_collider_def button_def ImplementsTargetInterface_def)
  from f TouchStarted_sees_earlier_set [OF f, of "idle_pointer\<lparr>bIsPinched := True\<rparr>" "[]"]
  show ?thesis
    by (simp add: button_def idle_pointer_def TSet_Add_def)
qed

text \<open>
  C10 as stated fails when the target is already touched: the button is in the
  touched set through its left collider, its right collider begins to overlap,
  and the query made from inside touch-start reports the button as touched.
\<close>

theorem TouchStarted_sees_earlier_set_counterexample:
  "find ImplementsTargetInterface (attach_chain (Some right_collider)) = Some button
   \<and> snd (snd (TryStartTouching query_call (idle_pointer\<lparr>TouchedTargets := [7]\<rparr>)
                 (Some right_collider) []))
       = [(TouchStarted 7, [7])]
   \<and> comp_id button \<in> set [7]"
  by (simp add: right_collider_def button_def idle_pointer_def
      ImplementsTargetInterface_def TSet_Add_def query_call_def)

section \<open>The touch pointer: begin and end on one node\<close>

lemma find_touched_after_Add:
  assumes "find ImplementsTargetInterface xs = Some t"
    and "distinct (map comp_id xs)"
    and "set (map comp_id (filter (\<lambda>c. \<not> ImplementsTargetInterface c) xs)) \<inter> S = {}"
  shows "find (\<lambda>c. comp_id c \<in> insert (comp_id t) S) xs = Some t"
  using assms
proof (induction xs)
  case Nil
  then show ?case by simp
next
  case (Cons x xs)
  show ?case
  proof (cases "ImplementsTargetInterface x")
    case True
    with Cons.prems show ?thesis by simp
  next
    case False
    with Cons.prems have t: "find ImplementsTargetInterface xs = Some t" by simp
    then have "t \<in> set xs" by (auto simp add: find_Some_iff)
    with Cons.prems have "comp_id x \<noteq> comp_id t" by auto
    moreover from False Cons.prems have "comp_id x \<notin> S" by auto
    ultimately show ?thesis using Cons.IH t Cons.prems False by simp
  qed
qed

lemma no_target_none_touched:
  assumes "find ImplementsTargetInterface xs = None"
    and "set (map comp_id (filter (\<lambda>c. \<not> ImplementsTargetInterface c) xs)) \<inter> S = {}"
  shows "\<forall>c \<in> set xs. comp_id c \<notin> S"
  using assms by (induction xs) (auto split: if_splits)

lemma begin_end_pair:
  assumes "distinct (map comp_id (attach_chain node))"
    and "set (map comp_id (filter (\<lambda>c. \<not> ImplementsTargetInterface c) (attach_chain node)))
           \<inter> set (TouchedTargets this) = {}"
    and "set_option (map_option comp_id (find ImplementsTargetInterface (attach_chain node)))
           \<inter> set (TouchedTargets this) = {}"
  shows "\<exists>ev. deliver_overlaps record_call node [BeginOverlap, EndOverlap] (this, w) = (this, w @ ev)
           \<and> length (filter is_TouchStarted ev) = length (filter is_TouchEnded ev)"
proof (cases "find ImplementsTargetInterface (attach_chain node)")
  case None
  from None assms(2)
  have "\<forall>c \<in> set (attach_chain node). comp_id c \<notin> set (TouchedTargets this)"
    by (rule no_target_none_touched)
  then have "TryStopTouching record_call this node w = (False, this, w)"
    by (rule TryStopTouching_none_touched)
  with None show ?thesis
    by (simp add: OnPointerBeginOverlap_def OnPointerEndOverlap_def TryStartTouching_walk)
next
  case (Some t)
  with assms(3) have fresh: "comp_id t \<notin> set (TouchedTargets this)" by simp
  let ?this1 = "this\<lparr>TouchedTargets := TouchedTargets this @ [comp_id t]\<rparr>"
  let ?w1 = "w @ TouchStarted (comp_id t)
               # (if bIsPinched this then [PinchStarted (comp_id t)] else [])"
  have start: "TryStartTouching record_call this node w = (True, ?this1, ?w1)"
    using Some fresh by (simp add: TryStartTouching_walk TSet_Add_def record_call_def)
  have "find (\<lambda>c. comp_id c \<in> insert (comp_id t) (set (TouchedTargets this)))
          (attach_chain node) = Some t"
    using Some assms(1) assms(2) by (rule find_touched_after_Add)
  then have found:
    "find (\<lambda>c. comp_id c \<in> set (TouchedTargets ?this1)) (attach_chain node) = Some t"
    by simp
  have impl: "ImplementsTargetInterface t"
    using Some by (auto simp add: find_Some_iff)
  have stop: "TryStopTouching record_call ?this1 node ?w1 =
      (True, this,
       ?w1 @ (if bIsPinched this then [PinchEnded (comp_id t)] else []) @ [TouchEnded (comp_id t)])"
    using fresh impl by (simp add: TryStopTouching_walk [OF found] record_call_def)
  show ?thesis
    using start stop by (simp add: OnPointerBeginOverlap_def OnPointerEndOverlap_def)
qed

lemma begin_end_pairs_balanced:
  assumes "distinct (map comp_id (attach_chain node))"
    and "set (map comp_id (filter (\<lambda>c. \<not> ImplementsTargetInterface c) (attach_chain node)))
           \<inter> set (TouchedTargets this) = {}"
    and "set_option (map_option comp_id (find ImplementsTargetInterface (attach_chain node)))
           \<inter> set (TouchedTargets this) = {}"
  shows "\<exists>ev. deliver_overlaps record_call node (begin_end_pairs k) (this, w) = (this, w @ ev)
           \<and> length (filter is_TouchStarted ev) = length (filter is_TouchEnded ev)"
proof (induction k arbitrary: w)
  case 0
  show ?case by simp
next
  case (Suc k)
  from begin_end_pair [OF assms, of w] obtain ev1 where
    one: "deliver_overlaps record_call node [BeginOverlap, EndOverlap] (this, w) = (this, w @ ev1)"
    and bal1: "length (filter is_TouchStarted ev1) = length (filter is_TouchEnded ev1)"
    by blast
  from Suc.IH [of "w @ ev1"] obtain ev2 where
    more: "deliver_overlaps record_call node (begin_end_pairs k) (this, w @ ev1)
             = (this, (w @ ev1) @ ev2)"
    and bal2: "length (filter is_TouchStarted ev2) = length (filter is_TouchEnded ev2)"
    by blast
  have "deliver_overlaps record_call node (begin_end_pairs (Suc k)) (this, w)
        = deliver_overlaps record_call node (begin_end_pairs k)
            (deliver_overlaps record_call node [BeginOverlap, EndOverlap] (this, w))"
    by simp
  with one more have "deliver_overlaps record_call node (begin_end_pairs (Suc k)) (this, w)
        = (this, w @ (ev1 @ ev2))" by simp
  moreover from bal1 bal2
  have "length (filter is_TouchStarted (ev1 @ ev2)) = length (filter is_TouchEnded (ev1 @ ev2))"
    by simp
  ultimately show ?case by blast
qed

text \<open>
  C3, as the code has it. Take a node whose attachment chain has no two
  components of the same identity, and a pointer whose touched set holds none
  of the chain's components that are not targets, nor the node's nearest
  target. After any number of overlap-begin, overlap-end pairs on that node the
  pointer is as it was before, its touched set included, and as many
  touch-start calls as touch-end calls have been made.
\<close>

theorem touch_symmetry:
  assumes "distinct (map comp_id (attach_chain node))"
    and "set (map comp_id (filter (\<lambda>c. \<not> ImplementsTargetInterface c) (attach_chain node)))
           \<inter> set (TouchedTargets this) = {}"
    and "set_option (map_option comp_id (find ImplementsTargetInterface (attach_chain node)))
           \<inter> set (TouchedTargets this) = {}"
  shows "fst (deliver_overlaps record_call node (begin_end_pairs k) (this, [])) = this
     \<and> length (filter is_TouchStarted
                 (snd (deliver_overlaps record_call node (begin_end_pairs k) (this, []))))
       = length (filter is_TouchEnded
                 (snd (deliver_overlaps record_call node (begin_end_pairs k) (this, []))))"
  using begin_end_pairs_balanced [OF assms, of k "[]"] by auto

theorem touch_symmetry_witness:
  "distinct (map comp_id (attach_chain (Some left_collider)))
   \<and> set (map comp_id (filter (\<lambda>c. \<not> ImplementsTargetInterface c)
                          (attach_chain (Some left_collider))))
       \<inter> set (TouchedTargets (idle_pointer\<lparr>TouchedTargets := [3]\<rparr>)) = {}
   \<and> set_option (map_option comp_id
         (find ImplementsTargetInterface (attach_chain (Some left_collider))))
       \<inter> set (TouchedTargets (idle_pointer\<lparr>TouchedTargets := [3]\<rparr>)) = {}
   \<and> fst (deliver_overlaps record_call (Some left_collider) (begin_end_pairs 2)
             (idle_pointer\<lparr>TouchedTargets := [3]\<rparr>, []))
       = idle_pointer\<lparr>TouchedTargets := [3]\<rparr>
   \<and> length (filter is_TouchStarted
               (snd (deliver_overlaps record_call (Some left_collider) (begin_end_pairs 2)
                       (idle_pointer\<lparr>TouchedTargets := [3]\<rparr>, []))))
       = length (filter is_TouchEnded
               (snd (deliver_overlaps record_call (Some left_collider) (begin_end_pairs 2)
                       (idle_pointer\<lparr>TouchedTargets := [3]\<rparr>, []))))"
proof -
  have h1: "distinct (map comp_id (attach_chain (Some left_collider)))"
    by (simp add: left_collider_def button_def)
  have h2: "set (map comp_id (filter (\<lambda>c. \<not> ImplementsTargetInterface c)
                          (attach_chain (Some left_collider))))
       \<inter> set (TouchedTargets (idle_pointer\<lparr>TouchedTargets := [3]\<rparr>)) = {}"
    by (simp add: left_collider_def button_def ImplementsTargetInterface_def)
  have h3: "set_option (map_option comp_id
         (find ImplementsTargetInterface (attach_chain (Some left_collider))))
       \<inter> set (TouchedTargets (idle_pointer\<lparr>TouchedTargets := [3]\<rparr>)) = {}"
    by (simp add: left_collider_def button_def ImplementsTargetInterface_def)
  from h1 h2 h3 touch_symmetry [OF h1 h2 h3, of 2] show ?thesis by simp
qed

text \<open>
  C3 as stated fails when the node's target is already touched: the button is
  touched through its left collider, then its right collider begins and ends
  an overlap. The size of the touched set goes from one to zero.
\<close>

theorem touch_symmetry_counterexample:
  "OnPointerBeginOverlap record_call idle_pointer (Some left_collider) []
     = (idle_pointer\<lparr>TouchedTargets := [7]\<rparr>, [TouchStarted 7])
   \<and> length (TouchedTargets (idle_pointer\<lparr>TouchedTargets := [7]\<rparr>)) = 1
   \<and> length (TouchedTargets (fst (deliver_overlaps record_call (Some right_collider)
                 [BeginOverlap, EndOverlap] (idle_pointer\<lparr>TouchedTargets := [7]\<rparr>, [])))) = 0"
  by (simp add: left_collider_def right_collider_def button_def idle_pointer_def
      ImplementsTargetInterface_def TSet_Add_def TSet_Remove_def record_call_def
      OnPointerBeginOverlap_def OnPointerEndOverlap_def)

section \<open>The touch pointer: ending touches\<close>

text \<open>
  C5. A pinched pointer that ends a touch calls pinch-end and then touch-end
  on the target, once each and in this order: when \<^verbatim>\<open>TryStopTouching\<close> removes a
  component that implements the target interface, these two are the calls it
  makes; when \<^verbatim>\<open>EndPlay\<close> runs, these two are the calls that go to each touched
  target that is still alive.
\<close>

theorem pinched_ends_pinch_then_touch:
  assumes "bIsPinched this"
  shows "(find (\<lambda>c. comp_id c \<in> set (TouchedTargets this)) (attach_chain node) = Some c
            \<and> ImplementsTargetInterface c
          \<longrightarrow> TryStopTouching record_call this node w =
                (True, this\<lparr>TouchedTargets := removeAll (comp_id c) (TouchedTargets this)\<rparr>,
                 w @ [PinchEnded (comp_id c), TouchEnded (comp_id c)]))
       \<and> (distinct (TouchedTargets this) \<and> t \<in> set (TouchedTargets this) \<and> alive t
          \<longrightarrow> filter (\<lambda>c. call_target c = t)
                 (snd (snd (EndPlay record_call alive addr this reg []))) =
                [PinchEnded t, TouchEnded t])"
  using assms
  by (auto simp add: TryStopTouching_walk record_call_def EndPlay_def StopAllTouching_def
      fold_StopTouching_body filter_calls_of_target)

theorem pinched_ends_pinch_then_touch_witness:
  "bIsPinched (idle_pointer\<lparr>bIsPinched := True, TouchedTargets := [3, 7]\<rparr>)
   \<and> find (\<lambda>c. comp_id c \<in> set (TouchedTargets
               (idle_pointer\<lparr>bIsPinched := True, TouchedTargets := [3, 7]\<rparr>)))
        (attach_chain (Some left_collider)) = Some button
   \<and> ImplementsTargetInterface button
   \<and> TryStopTouching record_call (idle_pointer\<lparr>bIsPinched := True, TouchedTargets := [3, 7]\<rparr>)
        (Some left_collider) []
      = (True, idle_pointer\<lparr>bIsPinched := True, TouchedTargets := [3]\<rparr>,
         [PinchEnded 7, TouchEnded 7])
   \<and> distinct (TouchedTargets (idle_pointer\<lparr>bIsPinched := True, TouchedTargets := [3, 7]\<rparr>))
   \<and> 7 \<in> set (TouchedTargets (idle_pointer\<lparr>bIsPinched := True, TouchedTargets := [3, 7]\<rparr>))
   \<and> everything_alive 7
   \<and> filter (\<lambda>c. call_target c = 7)
        (snd (snd (EndPlay record_call everything_alive 1
           (idle_pointer\<lparr>bIsPinched := True, TouchedTargets := [3, 7]\<rparr>) [1] [])))
      = [PinchEnded 7, TouchEnded 7]"
proof -
  have p: "bIsPinched (idle_pointer\<lparr>bIsPinched := True, TouchedTargets := [3, 7]\<rparr>)"
    by simp
  have f: "find (\<lambda>c. comp_id c \<in> set (TouchedTargets
               (idle_pointer\<lparr>bIsPinched := True, TouchedTargets := [3, 7]\<rparr>)))
        (attach_chain (Some left_collider)) = Some button"
    by (simp add: left_collider_def button_def)
  have i: "ImplementsTargetInterface button"
    by (simp add: button_def ImplementsTargetInterface_def)
  have a: "everything_alive 7"
    by (simp add: everything_alive_def)
  from p f i a
    pinched_ends_pinch_then_touch [OF p, of "Some left_collider" button "[]" 7
      everything_alive 1 "[1]"]
  show ?thesis by (simp add: button_def idle_pointer_def)
qed

text \<open>
  C8. \<^verbatim>\<open>EndPlay\<close> goes through the touched set in order: a target that is still
  alive is sent pinch-end, when the pointer is pinched, and then touch-end; a
  target that is no longer alive is sent nothing. Afterwards the touched set is
  empty and the pointer is out of the registry.
\<close>

theorem EndPlay_stops_all_touching:
  "EndPlay record_call alive addr this reg w =
     (this\<lparr>TouchedTargets := []\<rparr>, removeAll addr reg,
      w @ concat (map (\<lambda>t. if alive t
                             then (if bIsPinched this then [PinchEnded t] else []) @ [TouchEnded t]
                             else []) (TouchedTargets this)))"
  by (simp add: EndPlay_def StopAllTouching_def TArray_Remove_def fold_StopTouching_body)

section \<open>The touch pointer: pinching\<close>

text \<open>What \<^verbatim>\<open>SetPinched\<close> does: nothing when the flag has the value already.\<close>

lemma SetPinched_same_value:
  "bIsPinched this = Enable \<Longrightarrow> SetPinched Execute alive this Enable w = (this, w)"
  by (simp add: SetPinched_def)

text \<open>
  Otherwise every touched target that is alive is sent pinch-end, preceded by
  pinch-start when the flag is being set.
\<close>

lemma SetPinched_calls:
  "bIsPinched this \<noteq> Enable \<Longrightarrow>
   SetPinched record_call alive this Enable w =
     (this\<lparr>bIsPinched := Enable\<rparr>,
      w @ concat (map (\<lambda>t. if alive t
                             then (if Enable then [PinchStarted t] else []) @ [PinchEnded t]
                             else []) (TouchedTargets this)))"
  by (simp add: SetPinched_def fold_SetPinched_body)

text \<open>
  C1 at a pointer that touches one live target and is not pinched: setting the
  pinch flag calls pinch-start and then pinch-end on the target, two calls
  instead of the one pinch-start, because the pinch-end block of the loop is
  not guarded by an \<^verbatim>\<open>else\<close>.
\<close>

theorem SetPinched_enable_calls_both:
  "SetPinched record_call everything_alive (idle_pointer\<lparr>TouchedTargets := [7]\<rparr>) True []
     = (idle_pointer\<lparr>TouchedTargets := [7], bIsPinched := True\<rparr>, [PinchStarted 7, PinchEnded 7])"
  by (simp add: SetPinched_def SetPinched_body_def idle_pointer_def everything_alive_def
      record_call_def)

section \<open>The registry of pointers\<close>

text \<open>
  C6. Of the entry points of the pointer, \<^verbatim>\<open>BeginPlay\<close> appends the pointer to
  the registry, \<^verbatim>\<open>EndPlay\<close> removes it, and every other one leaves the registry
  as it is. So after any run of operations \<^verbatim>\<open>GetAllPointers\<close> returns exactly the
  pointers that were activated and not deactivated since.
\<close>

theorem registry_tracks_active_pointers:
  "Pointers (apply_op Execute alive op wd) =
     (case op of DoBeginPlay p \<Rightarrow> Pointers wd @ [p]
               | DoEndPlay p \<Rightarrow> removeAll p (Pointers wd)
               | _ \<Rightarrow> Pointers wd)
   \<and> set (GetAllPointers (Pointers (fold (apply_op Execute alive) ops wd)))
       = active_after ops (set (Pointers wd))"
proof
  show one: "Pointers (apply_op Execute alive op wd) =
     (case op of DoBeginPlay p \<Rightarrow> Pointers wd @ [p]
               | DoEndPlay p \<Rightarrow> removeAll p (Pointers wd)
               | _ \<Rightarrow> Pointers wd)" for op wd
    by (cases op)
       (simp_all add: BeginPlay_def EndPlay_def TArray_Add_def TArray_Remove_def
          split: prod.split)
  show "set (GetAllPointers (Pointers (fold (apply_op Execute alive) ops wd)))
       = active_after ops (set (Pointers wd))"
  proof (induction ops arbitrary: wd)
    case Nil
    then show ?case by (simp add: GetAllPointers_def)
  next
    case (Cons op ops)
    show ?case using Cons.IH [of "apply_op Execute alive op wd"] one [of op wd]
      by (cases op) (simp_all add: insert_commute)
  qed
qed

section \<open>The follow component: distance clamp\<close>

text \<open>
  C9, for parameters with \<^verbatim>\<open>MinimumDistance\<close> at most \<^verbatim>\<open>MaximumDistance\<close>. With
  distance clamping enabled, the distance after the clamp lies between the two:
  a distance below the minimum becomes the minimum, one above the maximum
  becomes the maximum, and any other is left as it is.
\<close>

theorem DistanceClamp_within_bounds:
  assumes "\<not> bIgnoreDistanceClamp cfg" and "MinimumDistance cfg \<le> MaximumDistance cfg"
  shows "MinimumDistance cfg \<le> DistanceClamp cfg d \<and> DistanceClamp cfg d \<le> MaximumDistance cfg
     \<and> DistanceClamp cfg d =
         (if d < MinimumDistance cfg then MinimumDistance cfg
          else if MaximumDistance cfg < d then MaximumDistance cfg else d)"
  using assms by (auto simp add: DistanceClamp_def nearest_bound_def)

theorem DistanceClamp_within_bounds_witness:
  "\<not> bIgnoreDistanceClamp follow_defaults
   \<and> MinimumDistance follow_defaults \<le> MaximumDistance follow_defaults
   \<and> MinimumDistance follow_defaults \<le> DistanceClamp follow_defaults 120
   \<and> DistanceClamp follow_defaults 120 \<le> MaximumDistance follow_defaults
   \<and> DistanceClamp follow_defaults 120 = 100"
proof -
  have h1: "\<not> bIgnoreDistanceClamp follow_defaults"
    by (simp add: follow_defaults_def)
  have h2: "MinimumDistance follow_defaults \<le> MaximumDistance follow_defaults"
    by (simp add: follow_defaults_def)
  from h1 h2 DistanceClamp_within_bounds [OF h1 h2, of 120] show ?thesis
    by (simp add: follow_defaults_def)
qed

text \<open>
  C9 as stated fails for parameters with the minimum above the maximum, which
  the header does not exclude: no distance lies between the two bounds then.
\<close>

theorem DistanceClamp_within_bounds_counterexample:
  "\<not> bIgnoreDistanceClamp (follow_defaults\<lparr>MinimumDistance := 100, MaximumDistance := 50\<rparr>)
   \<and> \<not> (MinimumDistance (follow_defaults\<lparr>MinimumDistance := 100, MaximumDistance := 50\<rparr>)
          \<le> DistanceClamp (follow_defaults\<lparr>MinimumDistance := 100, MaximumDistance := 50\<rparr>) 75
        \<and> DistanceClamp (follow_defaults\<lparr>MinimumDistance := 100, MaximumDistance := 50\<rparr>) 75
          \<le> MaximumDistance (follow_defaults\<lparr>MinimumDistance := 100, MaximumDistance := 50\<rparr>))"
  by (simp add: follow_defaults_def DistanceClamp_def nearest_bound_def)

end
